theory Spec2Isabelle
  imports Complex_Main "HOL-Library.Word"
begin

unbundle bit_operations_syntax

section \<open>Data model of \<open>src/lib/image/png.ts\<close>\<close>

text \<open>
  An \<open>ArrayBuffer\<close> is its list of bytes. The only caller builds the view with
  \<open>new DataView(await blob.arrayBuffer())\<close>, so a \<open>DataView\<close> covers its whole buffer
  (\<open>byteOffset = 0\<close>, \<open>byteLength = buffer.byteLength\<close>) and is modelled by the same list.
  JavaScript numbers that hold offsets and lengths are integers here (\<open>int\<close>).
  An exception is a value of type \<open>error\<close>; a function that can throw returns
  \<open>error + 'a\<close> with \<open>Inl\<close> for the exception. The field \<open>size\<close> of a chunk is
  \<open>size'\<close> here.
\<close>

type_synonym byte = "8 word"
type_synonym ArrayBuffer = "byte list"

datatype error = RangeError | Error string

record PngChunk =
  dataOffset :: int
  size' :: int
  start :: int

record PhysicalDimensions =
  ppux :: int
  ppuy :: int
  unit :: int

definition SIGNATURE :: "int list" where
  "SIGNATURE = [0x89, 0x50, 0x4e, 0x47, 0x0d, 0x0a, 0x1a, 0x0a]"

definition LENGTH_SIZE :: int where
  "LENGTH_SIZE = 4"

definition CRC_SIZE :: int where
  "CRC_SIZE = 4"

subsection \<open>\<open>DataView\<close> reads\<close>

text \<open>
  A \<open>DataView\<close> getter throws \<open>RangeError\<close> when the offset is negative or the read
  would pass the end of the view. Multi-byte reads are big-endian (the default).
\<close>

definition inBounds :: "ArrayBuffer \<Rightarrow> int \<Rightarrow> int \<Rightarrow> bool" where
  "inBounds view byteOffset n = (0 \<le> byteOffset \<and> byteOffset + n \<le> int (length view))"

definition be32 :: "ArrayBuffer \<Rightarrow> nat \<Rightarrow> 32 word" where
  "be32 view i =
     push_bit 24 (ucast (view ! i)) OR push_bit 16 (ucast (view ! (i + 1)))
       OR push_bit 8 (ucast (view ! (i + 2))) OR ucast (view ! (i + 3))"

definition getUint8 :: "ArrayBuffer \<Rightarrow> int \<Rightarrow> error + int" where
  "getUint8 view byteOffset =
     (if inBounds view byteOffset 1 then Inr (uint (view ! nat byteOffset))
      else Inl RangeError)"

definition getUint32 :: "ArrayBuffer \<Rightarrow> int \<Rightarrow> error + int" where
  "getUint32 view byteOffset =
     (if inBounds view byteOffset 4 then Inr (uint (be32 view (nat byteOffset)))
      else Inl RangeError)"

definition getInt32 :: "ArrayBuffer \<Rightarrow> int \<Rightarrow> error + int" where
  "getInt32 view byteOffset =
     (if inBounds view byteOffset 4 then Inr (sint (be32 view (nat byteOffset)))
      else Inl RangeError)"

subsection \<open>\<open>isPng\<close>\<close>

text \<open>
  \<open>Array.prototype.every\<close> calls the predicate on the elements in order, with their
  index, and stops at the first one that is false; an exception of the predicate leaves
  \<open>every\<close>.
\<close>

fun every :: "('a \<Rightarrow> nat \<Rightarrow> error + bool) \<Rightarrow> 'a list \<Rightarrow> nat \<Rightarrow> error + bool" where
  "every p [] index = Inr True"
| "every p (x # xs) index =
     (case p x index of
        Inl e \<Rightarrow> Inl e
      | Inr b \<Rightarrow> if b then every p xs (Suc index) else Inr False)"

definition isPng :: "ArrayBuffer \<Rightarrow> int \<Rightarrow> bool" where
  "isPng view offset =
     (case every (\<lambda>byte index.
             case getUint8 view (offset + int index) of
               Inl e \<Rightarrow> Inl e
             | Inr v \<Rightarrow> Inr (v = byte)) SIGNATURE 0 of
        Inl e \<Rightarrow> False
      | Inr b \<Rightarrow> b)"

subsection \<open>Sequencing of calls that can throw\<close>

definition bindE :: "error + 'a \<Rightarrow> ('a \<Rightarrow> error + 'b) \<Rightarrow> error + 'b" where
  "bindE m f = (case m of Inl e \<Rightarrow> Inl e | Inr x \<Rightarrow> f x)"

text \<open>
  Every method has the shape \<open>try { ... } catch (error) { logger.error(...); throw new
  Error(msg) }\<close>: whatever was thrown inside is replaced by \<open>Error msg\<close>.
\<close>

definition rethrow :: "string \<Rightarrow> error + 'a \<Rightarrow> error + 'a" where
  "rethrow msg m = (case m of Inl e \<Rightarrow> Inl (Error msg) | Inr x \<Rightarrow> Inr x)"

fun mapE :: "('a \<Rightarrow> error + 'b) \<Rightarrow> 'a list \<Rightarrow> error + 'b list" where
  "mapE f [] = Inr []"
| "mapE f (x # xs) =
     bindE (f x) (\<lambda>y. bindE (mapE f xs) (\<lambda>ys. Inr (y # ys)))"

subsection \<open>\<open>getChunkType\<close>\<close>

text \<open>
  \<open>String.fromCharCode\<close> of a byte is the character with that code; the four characters
  are joined into the chunk type.
\<close>

definition getChunkType :: "ArrayBuffer \<Rightarrow> int \<Rightarrow> error + string" where
  "getChunkType view offset =
     rethrow ''Failed to read chunk type''
       (mapE (\<lambda>i. bindE (getUint8 view (offset + int i)) (\<lambda>v. Inr (char_of v))) [0..<4])"

subsection \<open>\<open>readChunks\<close>\<close>

text \<open>
  The \<open>while\<close> loop of \<open>readChunks\<close>, with its state (\<open>offset\<close> and the table
  \<open>chunks\<close>) as arguments. Nothing in the loop bounds the number of iterations, so the
  result is an \<open>option\<close>: \<open>None\<close> is a loop that never ends, \<open>Some (Inl e)\<close> an exception
  that leaves the loop, \<open>Some (Inr chunks)\<close> the table at the \<open>break\<close> or at the exit.
  \<open>chunks[chunkType]\<close> is truthy exactly when the table has an entry for the type:
  the table is an object with four-character keys, and no property inherited from
  \<open>Object.prototype\<close> has a four-character name.
\<close>

partial_function (option) readChunks_loop ::
  "ArrayBuffer \<Rightarrow> int \<Rightarrow> (string \<rightharpoonup> PngChunk) \<Rightarrow> (error + (string \<rightharpoonup> PngChunk)) option"
where
  "readChunks_loop view offset chunks =
     (if offset \<le> int (length view) then
        (case getInt32 view offset of
           Inl e \<Rightarrow> Some (Inl e)
         | Inr len \<Rightarrow>
             (case getChunkType view (offset + LENGTH_SIZE) of
                Inl e \<Rightarrow> Some (Inl e)
              | Inr chunkType \<Rightarrow>
                  if chunkType = ''IDAT'' \<and> chunks chunkType \<noteq> None then
                    readChunks_loop view
                      (offset + LENGTH_SIZE + (len + LENGTH_SIZE + CRC_SIZE)) chunks
                  else if chunkType = ''IEND'' then Some (Inr chunks)
                  else
                    readChunks_loop view
                      (offset + LENGTH_SIZE + (len + LENGTH_SIZE + CRC_SIZE))
                      (chunks(chunkType \<mapsto>
                         \<lparr>dataOffset = offset + LENGTH_SIZE + 4, size' = len,
                          start = offset\<rparr>))))
      else Some (Inr chunks))"

declare readChunks_loop.simps [code]

definition readChunks :: "ArrayBuffer \<Rightarrow> int \<Rightarrow> (error + (string \<rightharpoonup> PngChunk)) option" where
  "readChunks view offset =
     map_option (rethrow ''Failed to read PNG chunks'')
       (if \<not> isPng view offset then Some (Inl (Error ''Invalid PNG signature''))
        else readChunks_loop view (offset + int (length SIGNATURE)) Map.empty)"

subsection \<open>\<open>parsePhys\<close> and \<open>findChunk\<close>\<close>

definition parsePhys :: "ArrayBuffer \<Rightarrow> int \<Rightarrow> error + PhysicalDimensions" where
  "parsePhys view offset =
     rethrow ''Failed to parse physical dimensions''
       (bindE (getUint32 view offset) (\<lambda>x.
        bindE (getUint32 view (offset + 4)) (\<lambda>y.
        bindE (getUint8 view (offset + 4)) (\<lambda>u.
        Inr \<lparr>ppux = x, ppuy = y, unit = u\<rparr>))))"

definition findChunk :: "ArrayBuffer \<Rightarrow> string \<Rightarrow> (error + PngChunk option) option" where
  "findChunk view type =
     map_option
       (\<lambda>r. rethrow (''Failed to find chunk: '' @ type) (bindE r (\<lambda>chunks. Inr (chunks type))))
       (readChunks view 0)"

subsection \<open>\<open>calculateCRC\<close>\<close>

text \<open>
  \<open>CRC_TABLE\<close> is an \<open>Int32Array\<close>; the bitwise operators of JavaScript work on 32-bit
  values, so the accumulator is a \<open>32 word\<close> (\<open>>>>\<close> is \<open>drop_bit\<close>). The function
  returns the signed reading of the final word.
\<close>

definition CRC_TABLE :: "32 word list" where
  "CRC_TABLE = [
     0x00000000, 0x77073096, 0xee0e612c, 0x990951ba, 0x076dc419, 0x706af48f,
     0xe963a535, 0x9e6495a3, 0x0edb8832, 0x79dcb8a4, 0xe0d5e91e, 0x97d2d988,
     0x09b64c2b, 0x7eb17cbd, 0xe7b82d07, 0x90bf1d91, 0x1db71064, 0x6ab020f2,
     0xf3b97148, 0x84be41de, 0x1adad47d, 0x6ddde4eb, 0xf4d4b551, 0x83d385c7,
     0x136c9856, 0x646ba8c0, 0xfd62f97a, 0x8a65c9ec, 0x14015c4f, 0x63066cd9,
     0xfa0f3d63, 0x8d080df5, 0x3b6e20c8, 0x4c69105e, 0xd56041e4, 0xa2677172,
     0x3c03e4d1, 0x4b04d447, 0xd20d85fd, 0xa50ab56b, 0x35b5a8fa, 0x42b2986c,
     0xdbbbc9d6, 0xacbcf940, 0x32d86ce3, 0x45df5c75, 0xdcd60dcf, 0xabd13d59,
     0x26d930ac, 0x51de003a, 0xc8d75180, 0xbfd06116, 0x21b4f4b5, 0x56b3c423,
     0xcfba9599, 0xb8bda50f, 0x2802b89e, 0x5f058808, 0xc60cd9b2, 0xb10be924,
     0x2f6f7c87, 0x58684c11, 0xc1611dab, 0xb6662d3d, 0x76dc4190, 0x01db7106,
     0x98d220bc, 0xefd5102a, 0x71b18589, 0x06b6b51f, 0x9fbfe4a5, 0xe8b8d433,
     0x7807c9a2, 0x0f00f934, 0x9609a88e, 0xe10e9818, 0x7f6a0dbb, 0x086d3d2d,
     0x91646c97, 0xe6635c01, 0x6b6b51f4, 0x1c6c6162, 0x856530d8, 0xf262004e,
     0x6c0695ed, 0x1b01a57b, 0x8208f4c1, 0xf50fc457, 0x65b0d9c6, 0x12b7e950,
     0x8bbeb8ea, 0xfcb9887c, 0x62dd1ddf, 0x15da2d49, 0x8cd37cf3, 0xfbd44c65,
     0x4db26158, 0x3ab551ce, 0xa3bc0074, 0xd4bb30e2, 0x4adfa541, 0x3dd895d7,
     0xa4d1c46d, 0xd3d6f4fb, 0x4369e96a, 0x346ed9fc, 0xad678846, 0xda60b8d0,
     0x44042d73, 0x33031de5, 0xaa0a4c5f, 0xdd0d7cc9, 0x5005713c, 0x270241aa,
     0xbe0b1010, 0xc90c2086, 0x5768b525, 0x206f85b3, 0xb966d409, 0xce61e49f,
     0x5edef90e, 0x29d9c998, 0xb0d09822, 0xc7d7a8b4, 0x59b33d17, 0x2eb40d81,
     0xb7bd5c3b, 0xc0ba6cad, 0xedb88320, 0x9abfb3b6, 0x03b6e20c, 0x74b1d29a,
     0xead54739, 0x9dd277af, 0x04db2615, 0x73dc1683, 0xe3630b12, 0x94643b84,
     0x0d6d6a3e, 0x7a6a5aa8, 0xe40ecf0b, 0x9309ff9d, 0x0a00ae27, 0x7d079eb1,
     0xf00f9344, 0x8708a3d2, 0x1e01f268, 0x6906c2fe, 0xf762575d, 0x806567cb,
     0x196c3671, 0x6e6b06e7, 0xfed41b76, 0x89d32be0, 0x10da7a5a, 0x67dd4acc,
     0xf9b9df6f, 0x8ebeeff9, 0x17b7be43, 0x60b08ed5, 0xd6d6a3e8, 0xa1d1937e,
     0x38d8c2c4, 0x4fdff252, 0xd1bb67f1, 0xa6bc5767, 0x3fb506dd, 0x48b2364b,
     0xd80d2bda, 0xaf0a1b4c, 0x36034af6, 0x41047a60, 0xdf60efc3, 0xa867df55,
     0x316e8eef, 0x4669be79, 0xcb61b38c, 0xbc66831a, 0x256fd2a0, 0x5268e236,
     0xcc0c7795, 0xbb0b4703, 0x220216b9, 0x5505262f, 0xc5ba3bbe, 0xb2bd0b28,
     0x2bb45a92, 0x5cb36a04, 0xc2d7ffa7, 0xb5d0cf31, 0x2cd99e8b, 0x5bdeae1d,
     0x9b64c2b0, 0xec63f226, 0x756aa39c, 0x026d930a, 0x9c0906a9, 0xeb0e363f,
     0x72076785, 0x05005713, 0x95bf4a82, 0xe2b87a14, 0x7bb12bae, 0x0cb61b38,
     0x92d28e9b, 0xe5d5be0d, 0x7cdcefb7, 0x0bdbdf21, 0x86d3d2d4, 0xf1d4e242,
     0x68ddb3f8, 0x1fda836e, 0x81be16cd, 0xf6b9265b, 0x6fb077e1, 0x18b74777,
     0x88085ae6, 0xff0f6a70, 0x66063bca, 0x11010b5c, 0x8f659eff, 0xf862ae69,
     0x616bffd3, 0x166ccf45, 0xa00ae278, 0xd70dd2ee, 0x4e048354, 0x3903b3c2,
     0xa7672661, 0xd06016f7, 0x4969474d, 0x3e6e77db, 0xaed16a4a, 0xd9d65adc,
     0x40df0b66, 0x37d83bf0, 0xa9bcae53, 0xdebb9ec5, 0x47b2cf7f, 0x30b5ffe9,
     0xbdbdf21c, 0xcabac28a, 0x53b39330, 0x24b4a3a6, 0xbad03605, 0xcdd70693,
     0x54de5729, 0x23d967bf, 0xb3667a2e, 0xc4614ab8, 0x5d681b02, 0x2a6f2b94,
     0xb40bbe37, 0xc30c8ea1, 0x5a05df1b, 0x2d02ef8d]"

fun crc_loop :: "32 word \<Rightarrow> byte list \<Rightarrow> 32 word" where
  "crc_loop crc [] = crc"
| "crc_loop crc (b # current) =
     crc_loop (CRC_TABLE ! unat ((crc XOR ucast b) AND 0xff) XOR drop_bit 8 crc) current"

definition calculateCRC :: "byte list \<Rightarrow> int \<Rightarrow> int" where
  "calculateCRC current previous =
     (let crc = (if previous = 0 then 0 else word_of_int previous XOR (- 1))
      in sint (crc_loop crc current XOR (- 1)))"

subsection \<open>Buffers on the heap: allocation, \<open>slice\<close> and \<open>DataView\<close> writes\<close>

text \<open>
  \<open>setPhysChunk\<close> allocates buffers and writes into one of them, so it runs on a heap:
  the list of all buffers, a buffer's address being its index. \<open>alloc\<close> appends a new
  buffer. \<open>ArrayBuffer.prototype.slice\<close> copies a range into a new buffer; a negative
  index counts from the end and both ends are clamped.
\<close>

type_synonym heap = "ArrayBuffer list"

definition alloc :: "heap \<Rightarrow> ArrayBuffer \<Rightarrow> nat \<times> heap" where
  "alloc h b = (length h, h @ [b])"

definition slice :: "ArrayBuffer \<Rightarrow> int \<Rightarrow> int option \<Rightarrow> ArrayBuffer" where
  "slice buf from to =
     (let len = int (length buf);
          first = (if from < 0 then max (len + from) 0 else min from len);
          relativeEnd = (case to of None \<Rightarrow> len | Some e \<Rightarrow> e);
          final = (if relativeEnd < 0 then max (len + relativeEnd) 0 else min relativeEnd len);
          newLen = max (final - first) 0
      in take (nat newLen) (drop (nat first) buf))"

text \<open>
  A \<open>DataView\<close> setter converts its number to a 32-bit (or 8-bit) integer by dropping
  the fraction (towards zero) and reducing modulo the width, and stores it big-endian.
  Numbers that can have a fraction are rationals; \<open>NaN\<close> and the infinities are not
  modelled.
\<close>

definition toInteger :: "rat \<Rightarrow> int" where
  "toInteger x = (if x < 0 then - \<lfloor>- x\<rfloor> else \<lfloor>x\<rfloor>)"

definition bytes32 :: "32 word \<Rightarrow> byte list" where
  "bytes32 w = [ucast (drop_bit 24 w), ucast (drop_bit 16 w), ucast (drop_bit 8 w), ucast w]"

definition writeBytes :: "ArrayBuffer \<Rightarrow> int \<Rightarrow> byte list \<Rightarrow> error + ArrayBuffer" where
  "writeBytes view byteOffset bs =
     (if inBounds view byteOffset (int (length bs))
      then Inr (take (nat byteOffset) view @ bs @ drop (nat byteOffset + length bs) view)
      else Inl RangeError)"

definition setUint32 :: "ArrayBuffer \<Rightarrow> int \<Rightarrow> rat \<Rightarrow> error + ArrayBuffer" where
  "setUint32 view byteOffset v = writeBytes view byteOffset (bytes32 (word_of_int (toInteger v)))"

definition setInt32 :: "ArrayBuffer \<Rightarrow> int \<Rightarrow> rat \<Rightarrow> error + ArrayBuffer" where
  "setInt32 view byteOffset v = writeBytes view byteOffset (bytes32 (word_of_int (toInteger v)))"

definition setUint8 :: "ArrayBuffer \<Rightarrow> int \<Rightarrow> rat \<Rightarrow> error + ArrayBuffer" where
  "setUint8 view byteOffset v = writeBytes view byteOffset [word_of_int (toInteger v)]"

definition setInt8 :: "ArrayBuffer \<Rightarrow> int \<Rightarrow> rat \<Rightarrow> error + ArrayBuffer" where
  "setInt8 view byteOffset v = writeBytes view byteOffset [word_of_int (toInteger v)]"

text \<open>A write through a view of the buffer at address \<open>a\<close>, and sequencing on the heap.\<close>

definition setH ::
  "(ArrayBuffer \<Rightarrow> error + ArrayBuffer) \<Rightarrow> nat \<Rightarrow> heap \<Rightarrow> (error + unit) \<times> heap" where
  "setH w a h = (case w (h ! a) of Inl e \<Rightarrow> (Inl e, h) | Inr d \<Rightarrow> (Inr (), h[a := d]))"

definition bindH ::
  "(error + 'a) \<times> heap \<Rightarrow> ('a \<Rightarrow> heap \<Rightarrow> (error + 'b) \<times> heap) \<Rightarrow> (error + 'b) \<times> heap" where
  "bindH m f = (case m of (Inl e, h) \<Rightarrow> (Inl e, h) | (Inr x, h) \<Rightarrow> f x h)"

fun forH :: "nat list \<Rightarrow> (nat \<Rightarrow> heap \<Rightarrow> (error + unit) \<times> heap) \<Rightarrow> heap \<Rightarrow> (error + unit) \<times> heap" where
  "forH [] body h = (Inr (), h)"
| "forH (i # is) body h = bindH (body i h) (\<lambda>_. forH is body)"

subsection \<open>\<open>setPhysChunk\<close>\<close>

record BlobPropertyBag =
  type :: string

record Blob =
  blobBytes :: ArrayBuffer
  blobOptions :: "BlobPropertyBag option"

text \<open>\<open>new Blob(parts, options)\<close> holds a copy of the bytes of its parts, in order.\<close>

definition newBlob :: "ArrayBuffer list \<Rightarrow> BlobPropertyBag option \<Rightarrow> Blob" where
  "newBlob parts options = \<lparr>blobBytes = concat parts, blobOptions = options\<rparr>"

definition DPI_96 :: rat where
  "DPI_96 = 2835.5"

text \<open>
  The first part of \<open>setPhysChunk\<close>: the two lookups that fix \<open>offset\<close> and \<open>size\<close>.
  The second lookup is not in an \<open>else\<close> branch: it runs whether or not a \<open>pHYs\<close>
  chunk was found.
\<close>

definition insertionRange :: "ArrayBuffer \<Rightarrow> (error + int \<times> int) option" where
  "insertionRange view =
     (let offset = 46; sz = 0 in
      case findChunk view ''pHYs'' of
        None \<Rightarrow> None
      | Some (Inl e) \<Rightarrow> Some (Inl e)
      | Some (Inr physChunk) \<Rightarrow>
          (let (offset, sz) =
                 (case physChunk of
                    Some c \<Rightarrow> (start c, size' c)
                  | None \<Rightarrow> (offset, sz))
           in case findChunk view ''IDAT'' of
                None \<Rightarrow> None
              | Some (Inl e) \<Rightarrow> Some (Inl e)
              | Some (Inr idatChunk) \<Rightarrow>
                  (let (offset, sz) =
                         (case idatChunk of
                            Some c \<Rightarrow> (start c, 0)
                          | None \<Rightarrow> (offset, sz))
                   in Some (Inr (offset, sz)))))"

text \<open>
  The second part: the new 21-byte buffer \<open>pHYsData\<close>, filled through its view, and the
  copy \<open>crcData\<close> of its bytes 4 to 16 for the checksum. The product
  \<open>DPI_96 * dpr\<close> is the exact one: the model is the code on every \<open>dpr\<close> for which
  the double-precision product is exact (such as the integers and halves a device pixel
  ratio usually is).
\<close>

definition createPhys :: "rat \<Rightarrow> heap \<Rightarrow> (error + nat) \<times> heap" where
  "createPhys dpr h =
     (let (pHYsData, h) = alloc h (replicate 21 0) in
      bindH (setH (\<lambda>d. setUint32 d 0 9) pHYsData h) (\<lambda>_ h.
      bindH (forH [0..<4]
               (\<lambda>i. setH (\<lambda>d. setUint8 d (4 + int i) (of_char (''pHYs'' ! i))) pHYsData) h) (\<lambda>_ h.
      let dpi = DPI_96 * dpr in
      bindH (setH (\<lambda>d. setInt32 d 8 dpi) pHYsData h) (\<lambda>_ h.
      bindH (setH (\<lambda>d. setInt32 d 12 dpi) pHYsData h) (\<lambda>_ h.
      bindH (setH (\<lambda>d. setInt8 d 16 1) pHYsData h) (\<lambda>_ h.
      let (crcData, h) = alloc h (slice (h ! pHYsData) 4 (Some 17)) in
      bindH (setH (\<lambda>d. setInt32 d 17 (of_int (calculateCRC (h ! crcData) 0))) pHYsData h) (\<lambda>_ h.
      (Inr pHYsData, h))))))))"

text \<open>
  \<open>setPhysChunk\<close>, on the heap \<open>h\<close> and the address \<open>view\<close> of the input buffer. The
  result is the returned \<open>Blob\<close> or the exception, with the heap after the call;
  \<open>None\<close> when a chunk scan never ends.
\<close>

definition setPhysChunk ::
  "heap \<Rightarrow> nat \<Rightarrow> rat \<Rightarrow> BlobPropertyBag option \<Rightarrow> ((error + Blob) \<times> heap) option" where
  "setPhysChunk h view dpr options =
     map_option (\<lambda>(r, h). (rethrow ''Failed to set physical dimensions'' r, h))
       (case insertionRange (h ! view) of
          None \<Rightarrow> None
        | Some (Inl e) \<Rightarrow> Some (Inl e, h)
        | Some (Inr (offset, sz)) \<Rightarrow>
            Some (bindH (createPhys dpr h) (\<lambda>pHYsData h.
              let (startBuffer, h) = alloc h (slice (h ! view) 0 (Some offset));
                  (endBuffer, h) = alloc h (slice (h ! view) (offset + sz) None)
              in (Inr (newBlob [h ! startBuffer, h ! pHYsData, h ! endBuffer] options), h))))"

section \<open>Well-formed PNG streams\<close>

text \<open>
  The vocabulary of the properties below. A chunk is its type code, its data and the
  four bytes of its checksum; it is laid out as the 4-byte big-endian length of the data,
  the 4-byte type, the data and the checksum. A well-formed stream is the signature,
  chunks whose data is shorter than \<open>2^31\<close> bytes and whose type is not \<open>IEND\<close>, the
  \<open>IEND\<close> chunk, and any trailing bytes. The checksum bytes are arbitrary: the code
  never reads them.
\<close>

record RawChunk =
  chunkType :: string
  chunkData :: "byte list"
  chunkCrc :: "byte list"

definition encodeChunk :: "RawChunk \<Rightarrow> byte list" where
  "encodeChunk c =
     bytes32 (word_of_int (int (length (chunkData c)))) @ map of_char (chunkType c)
       @ chunkData c @ chunkCrc c"

definition wfChunk :: "RawChunk \<Rightarrow> bool" where
  "wfChunk c =
     (length (chunkType c) = 4 \<and> chunkType c \<noteq> ''IEND'' \<and> length (chunkData c) < 2 ^ 31
      \<and> length (chunkCrc c) = 4)"

definition IEND_chunk :: "byte list" where
  "IEND_chunk = [0, 0, 0, 0, 0x49, 0x45, 0x4e, 0x44, 0xae, 0x42, 0x60, 0x82]"

definition pngBytes :: "RawChunk list \<Rightarrow> byte list \<Rightarrow> ArrayBuffer" where
  "pngBytes cs trailer =
     map word_of_int SIGNATURE @ concat (map encodeChunk cs) @ IEND_chunk @ trailer"

text \<open>The offset in the stream of the chunk that follows the chunks \<open>before\<close>.\<close>

definition chunkStart :: "RawChunk list \<Rightarrow> int" where
  "chunkStart before = 8 + int (length (concat (map encodeChunk before)))"

text \<open>
  The table a forward scan of the chunks builds, from position \<open>pos\<close> and table
  \<open>tbl\<close>: the first \<open>IDAT\<close> is kept, any other type is overwritten by a later chunk
  of the same type.
\<close>

fun tableOf :: "int \<Rightarrow> RawChunk list \<Rightarrow> (string \<rightharpoonup> PngChunk) \<Rightarrow> (string \<rightharpoonup> PngChunk)" where
  "tableOf pos [] tbl = tbl"
| "tableOf pos (c # cs) tbl =
     tableOf (pos + int (length (encodeChunk c))) cs
       (if chunkType c = ''IDAT'' \<and> tbl ''IDAT'' \<noteq> None then tbl
        else tbl(chunkType c \<mapsto>
               \<lparr>dataOffset = pos + 8, size' = int (length (chunkData c)), start = pos\<rparr>))"

text \<open>The 21 bytes of the new \<open>pHYs\<close> chunk for a device pixel ratio.\<close>

definition pHYsBytes :: "rat \<Rightarrow> ArrayBuffer" where
  "pHYsBytes dpr =
     (let dpi = bytes32 (word_of_int (toInteger (DPI_96 * dpr)));
          body = map of_char ''pHYs'' @ dpi @ dpi @ [1]
      in bytes32 9 @ body @ bytes32 (word_of_int (calculateCRC body 0)))"

section \<open>The checksum as the specification words it\<close>

text \<open>
  The specification describes the checksum of the PNG format: the register is all ones
  before the table-driven loop (it is XORed with \<open>-1\<close>), one byte is consumed per table
  lookup, and the result is XORed with \<open>-1\<close> again. This is that description, over
  the table and the loop of the code, to be compared with \<open>calculateCRC\<close>.
\<close>

definition referenceCRC32 :: "byte list \<Rightarrow> 32 word" where
  "referenceCRC32 bs = crc_loop (0 XOR (- 1)) bs XOR (- 1)"

section \<open>Concrete streams\<close>

text \<open>
  A 1 by 1 greyscale image, as chunks and as files: with a \<open>pHYs\<close> chunk
  (\<open>physPng\<close>), without one (\<open>plainPng\<close>), with the image data split over two
  \<open>IDAT\<close> chunks and a \<open>tEXt\<close> chunk after them, and with no image data at all
  (\<open>minimalPng\<close>). \<open>badLength\<close> is the signature followed by a chunk header whose
  length field is \<open>0xFFFFFFF4\<close>.
\<close>

definition ihdrChunk :: RawChunk where
  "ihdrChunk = \<lparr>chunkType = ''IHDR'', chunkData = [0, 0, 0, 1, 0, 0, 0, 1, 8, 0, 0, 0, 0],
                 chunkCrc = [0x3a, 0x7e, 0x9b, 0x55]\<rparr>"

definition physChunk :: RawChunk where
  "physChunk = \<lparr>chunkType = ''pHYs'', chunkData = [0, 0, 0x0b, 0x13, 0, 0, 0x0b, 0x13, 1],
                 chunkCrc = [0x00, 0x9a, 0x9c, 0x18]\<rparr>"

definition idatChunk :: RawChunk where
  "idatChunk = \<lparr>chunkType = ''IDAT'', chunkData = [0x78, 0x9c, 0x63, 0x60, 0, 0, 0, 2, 0, 1],
                 chunkCrc = [0x48, 0xaf, 0xa4, 0x71]\<rparr>"

definition idatFirst :: RawChunk where
  "idatFirst = \<lparr>chunkType = ''IDAT'', chunkData = [0x78, 0x9c, 0x63, 0x60, 0],
                 chunkCrc = [0x5d, 0xd4, 0xb2, 0x05]\<rparr>"

definition idatSecond :: RawChunk where
  "idatSecond = \<lparr>chunkType = ''IDAT'', chunkData = [0, 0, 2, 0, 1],
                  chunkCrc = [0x38, 0x0f, 0xbd, 0x31]\<rparr>"

definition textChunk :: RawChunk where
  "textChunk = \<lparr>chunkType = ''tEXt'', chunkData = [0x6b, 0x00, 0x76],
                 chunkCrc = [0xcb, 0x04, 0xf3, 0x90]\<rparr>"

definition physPng :: ArrayBuffer where
  "physPng =
     [0x89, 0x50, 0x4e, 0x47, 0x0d, 0x0a, 0x1a, 0x0a,
      0x00, 0x00, 0x00, 0x0d, 0x49, 0x48, 0x44, 0x52,
      0x00, 0x00, 0x00, 0x01, 0x00, 0x00, 0x00, 0x01, 0x08, 0x00, 0x00, 0x00, 0x00,
      0x3a, 0x7e, 0x9b, 0x55,
      0x00, 0x00, 0x00, 0x09, 0x70, 0x48, 0x59, 0x73,
      0x00, 0x00, 0x0b, 0x13, 0x00, 0x00, 0x0b, 0x13, 0x01,
      0x00, 0x9a, 0x9c, 0x18,
      0x00, 0x00, 0x00, 0x0a, 0x49, 0x44, 0x41, 0x54,
      0x78, 0x9c, 0x63, 0x60, 0x00, 0x00, 0x00, 0x02, 0x00, 0x01,
      0x48, 0xaf, 0xa4, 0x71,
      0x00, 0x00, 0x00, 0x00, 0x49, 0x45, 0x4e, 0x44, 0xae, 0x42, 0x60, 0x82]"

definition plainPng :: ArrayBuffer where
  "plainPng =
     [0x89, 0x50, 0x4e, 0x47, 0x0d, 0x0a, 0x1a, 0x0a,
      0x00, 0x00, 0x00, 0x0d, 0x49, 0x48, 0x44, 0x52,
      0x00, 0x00, 0x00, 0x01, 0x00, 0x00, 0x00, 0x01, 0x08, 0x00, 0x00, 0x00, 0x00,
      0x3a, 0x7e, 0x9b, 0x55,
      0x00, 0x00, 0x00, 0x0a, 0x49, 0x44, 0x41, 0x54,
      0x78, 0x9c, 0x63, 0x60, 0x00, 0x00, 0x00, 0x02, 0x00, 0x01,
      0x48, 0xaf, 0xa4, 0x71,
      0x00, 0x00, 0x00, 0x00, 0x49, 0x45, 0x4e, 0x44, 0xae, 0x42, 0x60, 0x82]"

definition minimalPng :: ArrayBuffer where
  "minimalPng =
     [0x89, 0x50, 0x4e, 0x47, 0x0d, 0x0a, 0x1a, 0x0a,
      0x00, 0x00, 0x00, 0x0d, 0x49, 0x48, 0x44, 0x52,
      0x00, 0x00, 0x00, 0x01, 0x00, 0x00, 0x00, 0x01, 0x08, 0x00, 0x00, 0x00, 0x00,
      0x3a, 0x7e, 0x9b, 0x55,
      0x00, 0x00, 0x00, 0x00, 0x49, 0x45, 0x4e, 0x44, 0xae, 0x42, 0x60, 0x82]"

definition badLength :: ArrayBuffer where
  "badLength =
     [0x89, 0x50, 0x4e, 0x47, 0x0d, 0x0a, 0x1a, 0x0a,
      0xff, 0xff, 0xff, 0xf4, 0x61, 0x62, 0x63, 0x64]"

section \<open>Properties\<close>

subsection \<open>\<open>isPng\<close>\<close>

lemma every_sig_char:
  "(case every (\<lambda>byte index.
             case getUint8 view (offset + int index) of
               Inl e \<Rightarrow> Inl e
             | Inr v \<Rightarrow> Inr (v = byte)) bs k of
        Inl e \<Rightarrow> False
      | Inr b \<Rightarrow> b)
   = (bs = [] \<or> (0 \<le> offset + int k \<and> map uint (take (length bs) (drop (nat (offset + int k)) view)) = bs))"
proof (induction bs arbitrary: k)
  case Nil
  then show ?case by simp
next
  case (Cons b bs)
  show ?case
  proof (cases "inBounds view (offset + int k) 1")
    case False
    then have "0 \<le> offset + int k \<Longrightarrow> drop (nat (offset + int k)) view = []"
      by (auto simp: inBounds_def)
    with False show ?thesis
      by (auto simp: getUint8_def)
  next
    case True
    then have nn: "0 \<le> offset + int k" and lt: "nat (offset + int k) < length view"
      by (auto simp: inBounds_def)
    have suc: "nat (offset + int (Suc k)) = Suc (nat (offset + int k))"
      using nn by simp
    have dr: "drop (nat (offset + int k)) view
              = view ! nat (offset + int k) # drop (nat (offset + int (Suc k))) view"
      unfolding suc using lt by (simp add: Cons_nth_drop_Suc)
    have nn': "0 \<le> offset + int (Suc k)"
      using nn by simp
    show ?thesis
      using True nn nn' Cons.IH [of "Suc k"]
      by (cases "uint (view ! nat (offset + int k)) = b")
         (auto simp: getUint8_def dr simp del: of_nat_Suc)
  qed
qed

lemma isPng_iff:
  "isPng view offset
   = (0 \<le> offset \<and> map uint (take 8 (drop (nat offset) view)) = SIGNATURE)"
proof -
  have len: "length SIGNATURE = 8" and ne: "SIGNATURE \<noteq> []"
    by (simp_all add: SIGNATURE_def)
  show ?thesis
    unfolding isPng_def every_sig_char [of view offset SIGNATURE 0] len
    using ne by simp
qed

text \<open>
  C8. \<open>isPng\<close> is a total, boolean-valued function (the \<open>catch\<close> turns every exception
  into \<open>false\<close>): it is true exactly when the offset is not negative and the eight bytes
  at the offset exist and are the PNG signature. So it is false on a mismatch and on a
  read out of bounds, in particular on every buffer shorter than eight bytes.
\<close>

theorem isPng_iff_signature:
  "isPng view offset
     = (0 \<le> offset \<and> map uint (take 8 (drop (nat offset) view)) = SIGNATURE)
   \<and> (length view < 8 \<longrightarrow> \<not> isPng view offset)"
proof (intro conjI impI)
  show "isPng view offset
     = (0 \<le> offset \<and> map uint (take 8 (drop (nat offset) view)) = SIGNATURE)"
    by (rule isPng_iff)
next
  assume short: "length view < 8"
  have "length (map uint (take 8 (drop (nat offset) view))) < 8"
    using short by simp
  moreover have "length SIGNATURE = 8"
    by (simp add: SIGNATURE_def)
  ultimately have "map uint (take 8 (drop (nat offset) view)) \<noteq> SIGNATURE"
    by (metis less_irrefl)
  then show "\<not> isPng view offset"
    by (simp add: isPng_iff)
qed

text \<open>
  The theorem on a two-byte buffer, and on \<open>plainPng\<close> at offsets 0 and 1.
\<close>

theorem isPng_iff_signature_witness:
  "length [0x89, 0x50 :: byte] < 8 \<and> \<not> isPng [0x89, 0x50] 0 \<and> isPng plainPng 0
   \<and> \<not> isPng plainPng 1"
  using isPng_iff_signature [of "[0x89, 0x50]" 0] isPng_iff_signature [of plainPng 0]
    isPng_iff_signature [of plainPng 1]
  by (simp add: plainPng_def SIGNATURE_def)

subsection \<open>Reading an encoded chunk\<close>

lemma uint_of_char: "uint (of_char c :: byte) = of_char c"
proof -
  have "(of_char c :: nat) < 2 ^ LENGTH(8)"
    using nat_of_char_less_256 [of c] by simp
  then have "unat (of_nat (of_char c) :: byte) = of_char c"
    by (simp add: unat_of_nat take_bit_nat_eq_self)
  then have "uint (of_nat (of_char c) :: byte) = int (of_char c)"
    by (metis uint_nat)
  then show ?thesis
    by (simp add: of_nat_of_char)
qed

lemma char_of_uint_of_char [simp]: "char_of (uint (of_char c :: byte)) = c"
  by (simp add: uint_of_char)

lemma getUint8_append:
  "i < length bs \<Longrightarrow> getUint8 (pre @ bs @ rest) (int (length pre) + int i) = Inr (uint (bs ! i))"
  by (simp add: getUint8_def inBounds_def nth_append nat_add_distrib)

lemma getChunkType_append:
  assumes "length ty = 4"
  shows "getChunkType (pre @ map of_char ty @ rest) (int (length pre)) = Inr ty"
proof -
  obtain a b c d where ty: "ty = [a, b, c, d]"
    using assms by (auto simp: length_Suc_conv eval_nat_numeral)
  have up: "[0..<4] = [0, 1, 2, 3]"
    by (simp add: eval_nat_numeral upt_rec)
  show ?thesis
    using getUint8_append [of 0 "map of_char ty" pre rest]
      getUint8_append [of 1 "map of_char ty" pre rest]
      getUint8_append [of 2 "map of_char ty" pre rest]
      getUint8_append [of 3 "map of_char ty" pre rest]
    by (simp add: getChunkType_def up ty bindE_def rethrow_def)
qed

lemma length_bytes32 [simp]: "length (bytes32 w) = 4"
  by (simp add: bytes32_def)

lemma be32_bytes32: "be32 (pre @ bytes32 w @ rest) (length pre) = w"
proof -
  have "push_bit 24 (ucast (ucast (drop_bit 24 w :: 32 word) :: byte)) OR
        push_bit 16 (ucast (ucast (drop_bit 16 w :: 32 word) :: byte)) OR
        push_bit 8 (ucast (ucast (drop_bit 8 w :: 32 word) :: byte)) OR ucast (ucast w :: byte) = w"
  proof (rule bit_word_eqI)
    fix n :: nat
    assume "n < LENGTH(32)"
    then consider "n < 8" | "8 \<le> n" "n < 16" | "16 \<le> n" "n < 24" | "24 \<le> n" "n < 32"
      by fastforce
    then show "bit (push_bit 24 (ucast (ucast (drop_bit 24 w :: 32 word) :: byte)) OR
        push_bit 16 (ucast (ucast (drop_bit 16 w :: 32 word) :: byte)) OR
        push_bit 8 (ucast (ucast (drop_bit 8 w :: 32 word) :: byte)) OR ucast (ucast w :: byte) :: 32 word) n = bit w n"
      by cases (auto simp add: bit_simps)
  qed
  then show ?thesis
    by (simp add: be32_def bytes32_def nth_append)
qed

lemma getInt32_append:
  assumes "n < 2 ^ 31"
  shows "getInt32 (pre @ bytes32 (word_of_int (int n)) @ rest) (int (length pre)) = Inr (int n)"
proof -
  have "sint (word_of_int (int n) :: 32 word) = int n"
    using assms by (simp add: sint_sbintrunc' signed_take_bit_int_eq_self del: of_int_of_nat_eq)
  then show ?thesis
    by (simp add: getInt32_def inBounds_def be32_bytes32)
qed

lemma length_encodeChunk:
  "wfChunk c \<Longrightarrow> length (encodeChunk c) = 12 + length (chunkData c)"
  by (simp add: encodeChunk_def wfChunk_def)

lemma IEND_type: "IEND_chunk = bytes32 (word_of_int (int 0)) @ map of_char ''IEND'' @ [0xae, 0x42, 0x60, 0x82]"
  by (simp add: IEND_chunk_def bytes32_def)

lemma readChunks_loop_wf:
  assumes "list_all wfChunk cs"
  shows "readChunks_loop (pre @ concat (map encodeChunk cs) @ IEND_chunk @ trailer)
           (int (length pre)) tbl
         = Some (Inr (tableOf (int (length pre)) cs tbl))"
  using assms
proof (induction cs arbitrary: pre tbl)
  case Nil
  have len: "getInt32 (pre @ IEND_chunk @ trailer) (int (length pre)) = Inr 0"
    using getInt32_append [of 0 pre "map of_char ''IEND'' @ [0xae, 0x42, 0x60, 0x82] @ trailer"]
    by (simp add: IEND_type)
  have ty: "getChunkType (pre @ IEND_chunk @ trailer) (int (length pre) + LENGTH_SIZE) = Inr ''IEND''"
    using getChunkType_append [of "''IEND''" "pre @ bytes32 (word_of_int (int 0))" "[0xae, 0x42, 0x60, 0x82] @ trailer"]
    by (simp add: IEND_type LENGTH_SIZE_def)
  show ?case
    by (subst readChunks_loop.simps) (simp add: len ty)
next
  case (Cons c cs)
  let ?rest = "concat (map encodeChunk cs) @ IEND_chunk @ trailer"
  let ?buf = "pre @ concat (map encodeChunk (c # cs)) @ IEND_chunk @ trailer"
  from Cons.prems have wf: "wfChunk c" and wfs: "list_all wfChunk cs"
    by simp_all
  have buf: "?buf = pre @ bytes32 (word_of_int (int (length (chunkData c))))
                      @ (map of_char (chunkType c) @ chunkData c @ chunkCrc c @ ?rest)"
    by (simp add: encodeChunk_def)
  have buf': "?buf = (pre @ bytes32 (word_of_int (int (length (chunkData c)))))
                      @ map of_char (chunkType c) @ (chunkData c @ chunkCrc c @ ?rest)"
    by (simp add: encodeChunk_def)
  have buf'': "?buf = (pre @ encodeChunk c) @ ?rest"
    by simp
  have len: "getInt32 ?buf (int (length pre)) = Inr (int (length (chunkData c)))"
    unfolding buf using wf by (intro getInt32_append) (simp add: wfChunk_def)
  have ty: "getChunkType ?buf (int (length pre) + LENGTH_SIZE) = Inr (chunkType c)"
    unfolding buf' using wf getChunkType_append [of "chunkType c" "pre @ bytes32 (word_of_int (int (length (chunkData c))))"]
    by (simp add: wfChunk_def LENGTH_SIZE_def)
  have le: "int (length pre) \<le> int (length ?buf)"
    by simp
  have nxt: "int (length pre) + LENGTH_SIZE + (int (length (chunkData c)) + LENGTH_SIZE + CRC_SIZE)
             = int (length (pre @ encodeChunk c))"
    using wf by (simp add: length_encodeChunk LENGTH_SIZE_def CRC_SIZE_def)
  have notend: "chunkType c \<noteq> ''IEND''"
    using wf by (simp add: wfChunk_def)
  have IH: "\<And>t. readChunks_loop ?buf (int (length (pre @ encodeChunk c))) t
            = Some (Inr (tableOf (int (length (pre @ encodeChunk c))) cs t))"
    unfolding buf'' using Cons.IH [OF wfs] .
  show ?case
    apply (subst readChunks_loop.simps)
    apply (simp only: le if_True len ty sum.case nxt IH notend if_False)
    apply (auto simp add: LENGTH_SIZE_def add.commute)
    done
qed

subsection \<open>The new chunk\<close>

lemma length_pHYsBytes [simp]: "length (pHYsBytes dpr) = 21"
  by (simp add: pHYsBytes_def Let_def)

lemma toInteger_of_int [simp]: "toInteger (of_int k) = k"
  unfolding toInteger_def by (cases "k < 0") (simp_all flip: of_int_minus)

lemma toInteger_numeral [simp]: "toInteger (numeral k) = numeral k" "toInteger 1 = 1"
  using toInteger_of_int [of "numeral k"] toInteger_of_int [of 1] by simp_all

lemma replicate21: "replicate 21 (0::byte) = [0,0,0,0,0,0,0,0,0,0,0,0,0,0,0,0,0,0,0,0,0]"
  by (simp add: eval_nat_numeral)

lemma upt4: "[0..<4] = [0, 1, 2, 3]"
  by (simp add: eval_nat_numeral upt_rec)

lemma createPhys_eq:
  "createPhys dpr h = (Inr (length h), h @ [pHYsBytes dpr, take 13 (drop 4 (pHYsBytes dpr))])"
  by (simp add: createPhys_def alloc_def setH_def bindH_def setUint32_def setInt32_def
      setUint8_def setInt8_def writeBytes_def inBounds_def bytes32_def pHYsBytes_def slice_def
      upt4 replicate21 Let_def nth_append)

subsection \<open>The chunk table of a well-formed stream\<close>

lemma tableOf_append:
  "tableOf pos (a @ b) tbl
   = tableOf (pos + int (length (concat (map encodeChunk a)))) b (tableOf pos a tbl)"
  by (induction a arbitrary: pos tbl) (simp_all add: add.assoc)

lemma tableOf_absent:
  "t \<notin> chunkType ` set cs \<Longrightarrow> tableOf pos cs tbl t = tbl t"
  by (induction cs arbitrary: pos tbl) auto

lemma tableOf_IDAT_kept:
  "tbl ''IDAT'' \<noteq> None \<Longrightarrow> tableOf pos cs tbl ''IDAT'' = tbl ''IDAT''"
  by (induction cs arbitrary: pos tbl) auto

lemma tableOf_first_IDAT:
  assumes "chunkType c = ''IDAT''" and "''IDAT'' \<notin> chunkType ` set a" and "tbl ''IDAT'' = None"
  shows "tableOf pos (a @ c # b) tbl ''IDAT''
         = Some \<lparr>dataOffset = pos + int (length (concat (map encodeChunk a))) + 8,
                 size' = int (length (chunkData c)),
                 start = pos + int (length (concat (map encodeChunk a)))\<rparr>"
  using assms by (simp add: tableOf_append tableOf_absent tableOf_IDAT_kept)

lemma tableOf_last_other:
  assumes "chunkType c \<noteq> ''IDAT''" and "chunkType c \<notin> chunkType ` set b"
  shows "tableOf pos (a @ c # b) tbl (chunkType c)
         = Some \<lparr>dataOffset = pos + int (length (concat (map encodeChunk a))) + 8,
                 size' = int (length (chunkData c)),
                 start = pos + int (length (concat (map encodeChunk a)))\<rparr>"
  using assms by (simp add: tableOf_append tableOf_absent)

lemma isPng_pngBytes: "isPng (pngBytes cs trailer) 0"
  by (simp add: isPng_iff pngBytes_def SIGNATURE_def)

lemma readChunks_wf:
  assumes "list_all wfChunk cs"
  shows "readChunks (pngBytes cs trailer) 0 = Some (Inr (tableOf 8 cs Map.empty))"
proof -
  have "readChunks_loop (pngBytes cs trailer) (int (length (map word_of_int SIGNATURE :: byte list))) Map.empty
        = Some (Inr (tableOf (int (length (map word_of_int SIGNATURE :: byte list))) cs Map.empty))"
    unfolding pngBytes_def using assms by (rule readChunks_loop_wf)
  then show ?thesis
    by (simp add: readChunks_def isPng_pngBytes rethrow_def) (simp add: SIGNATURE_def)
qed

lemma findChunk_wf:
  assumes "list_all wfChunk cs"
  shows "findChunk (pngBytes cs trailer) ty = Some (Inr (tableOf 8 cs Map.empty ty))"
  by (simp add: findChunk_def readChunks_wf [OF assms] rethrow_def bindE_def)


lemma slice_prefix: "0 \<le> k \<Longrightarrow> slice buf 0 (Some k) = take (nat k) buf"
  by (auto simp add: slice_def Let_def min_def max_def)

lemma slice_suffix: "0 \<le> k \<Longrightarrow> slice buf k None = drop (nat k) buf"
  by (auto simp add: slice_def Let_def min_def max_def)

lemma setPhysChunk_eq:
  assumes "view < length h" and "insertionRange (h ! view) = Some (Inr (offset, sz))"
  shows "setPhysChunk h view dpr options
         = Some (Inr (newBlob [slice (h ! view) 0 (Some offset), pHYsBytes dpr,
                               slice (h ! view) (offset + sz) None] options),
                 h @ [pHYsBytes dpr, take 13 (drop 4 (pHYsBytes dpr)),
                      slice (h ! view) 0 (Some offset), slice (h ! view) (offset + sz) None])"
  using assms
  by (simp add: setPhysChunk_def createPhys_eq bindH_def alloc_def rethrow_def nth_append Let_def)

lemma setPhysChunk_throw:
  assumes "insertionRange (h ! view) = Some (Inl e)"
  shows "setPhysChunk h view dpr options = Some (Inl (Error ''Failed to set physical dimensions''), h)"
  using assms by (simp add: setPhysChunk_def rethrow_def)

lemma setPhysChunk_diverge:
  assumes "insertionRange (h ! view) = None"
  shows "setPhysChunk h view dpr options = None"
  using assms by (simp add: setPhysChunk_def)

lemma insertionRange_wf:
  assumes "list_all wfChunk cs"
  shows "insertionRange (pngBytes cs trailer)
         = Some (Inr (case tableOf 8 cs Map.empty ''IDAT'' of
                        Some c \<Rightarrow> (start c, 0)
                      | None \<Rightarrow> (case tableOf 8 cs Map.empty ''pHYs'' of
                                  Some c \<Rightarrow> (start c, size' c)
                                | None \<Rightarrow> (46, 0))))"
  by (simp add: insertionRange_def findChunk_wf [OF assms] split: option.splits)


lemma length_pngBytes_split:
  "length (pngBytes (a @ c # b) trailer)
   = nat (chunkStart a) + length (encodeChunk c) + length (concat (map encodeChunk b)) + 12 + length trailer"
  by (simp add: pngBytes_def chunkStart_def SIGNATURE_def IEND_chunk_def)

lemma chunkStart_nonneg: "0 \<le> chunkStart a" "8 \<le> chunkStart a"
  by (simp_all add: chunkStart_def)

lemma blob_insert:
  assumes "view < length h" and "insertionRange (h ! view) = Some (Inr (off, 0))" and "0 \<le> off"
  shows "\<exists>h'. setPhysChunk h view dpr options
           = Some (Inr \<lparr>blobBytes = take (nat off) (h ! view) @ pHYsBytes dpr @ drop (nat off) (h ! view),
                        blobOptions = options\<rparr>, h')"
  using assms by (simp add: setPhysChunk_eq slice_prefix slice_suffix newBlob_def)

text \<open>
  C6 (as amended). On a well-formed stream with no \<open>pHYs\<close> chunk, \<open>setPhysChunk\<close>
  returns a blob that is the input with the 21 bytes of the new chunk inserted at an
  offset \<open>k\<close>, so it is 21 bytes longer: \<open>k\<close> is the start of the first \<open>IDAT\<close> chunk
  when there is one; with no \<open>IDAT\<close> chunk it is 46, or the length of the input when
  the input is shorter than 46 bytes (\<open>slice\<close> clamps the offset).
\<close>

theorem setPhysChunk_inserts_21_bytes:
  assumes wf: "list_all wfChunk cs"
    and nophys: "''pHYs'' \<notin> chunkType ` set cs"
    and view: "view < length h" "h ! view = pngBytes cs trailer"
  shows "\<exists>blob h' k.
           setPhysChunk h view dpr options = Some (Inr blob, h')
           \<and> blobBytes blob = take k (h ! view) @ pHYsBytes dpr @ drop k (h ! view)
           \<and> k \<le> length (h ! view)
           \<and> length (pHYsBytes dpr) = 21
           \<and> length (blobBytes blob) = length (h ! view) + 21
           \<and> (\<forall>a c b. cs = a @ c # b \<and> chunkType c = ''IDAT'' \<and> ''IDAT'' \<notin> chunkType ` set a
                  \<longrightarrow> int k = chunkStart a)
           \<and> (''IDAT'' \<notin> chunkType ` set cs \<longrightarrow> k = min 46 (length (h ! view)))"
proof -
  let ?buf = "h ! view"
  define off where
    "off = (case tableOf 8 cs Map.empty ''IDAT'' of Some c \<Rightarrow> start c | None \<Rightarrow> 46)"
  have no: "tableOf 8 cs Map.empty ''pHYs'' = None"
    using nophys by (simp add: tableOf_absent)
  have ir: "insertionRange ?buf = Some (Inr (off, 0))"
    unfolding view by (simp add: insertionRange_wf [OF wf] no off_def split: option.splits)
  have first: "off = chunkStart a \<and> nat off \<le> length ?buf"
    if "cs = a @ c # b" "chunkType c = ''IDAT''" "''IDAT'' \<notin> chunkType ` set a" for a c b
  proof -
    have "tableOf 8 cs Map.empty ''IDAT''
          = Some \<lparr>dataOffset = chunkStart a + 8, size' = int (length (chunkData c)),
                  start = chunkStart a\<rparr>"
      unfolding that(1) chunkStart_def using that(2,3) by (simp add: tableOf_first_IDAT)
    then have "off = chunkStart a"
      by (simp add: off_def)
    moreover have "nat (chunkStart a) \<le> length ?buf"
      unfolding view that(1) by (simp add: length_pngBytes_split)
    ultimately show ?thesis by simp
  qed
  have none: "off = 46" if "''IDAT'' \<notin> chunkType ` set cs"
    using that by (simp add: off_def tableOf_absent)
  have nn: "0 \<le> off"
  proof (cases "''IDAT'' \<in> chunkType ` set cs")
    case True
    then have "\<exists>x \<in> set cs. chunkType x = ''IDAT''"
      by auto
    then obtain a c b where "cs = a @ c # b" "chunkType c = ''IDAT''"
      "\<forall>y \<in> set a. chunkType y \<noteq> ''IDAT''"
      by (auto dest!: split_list_first_prop)
    moreover from this have "''IDAT'' \<notin> chunkType ` set a"
      by force
    ultimately have "off = chunkStart a"
      using first [of a c b] by blast
    then show ?thesis
      using chunkStart_nonneg(1) [of a] by simp
  next
    case False
    then show ?thesis using none by simp
  qed
  obtain h' where res: "setPhysChunk h view dpr options
      = Some (Inr \<lparr>blobBytes = take (nat off) ?buf @ pHYsBytes dpr @ drop (nat off) ?buf,
                   blobOptions = options\<rparr>, h')"
    using blob_insert [OF view(1) ir nn] by blast
  let ?k = "min (nat off) (length ?buf)"
  have tk: "take (nat off) ?buf = take ?k ?buf" and dk: "drop (nat off) ?buf = drop ?k ?buf"
    by (simp_all add: min_def)
  have "int ?k = chunkStart a"
    if "cs = a @ c # b \<and> chunkType c = ''IDAT'' \<and> ''IDAT'' \<notin> chunkType ` set a" for a c b
    using first [of a c b] that nn by (auto simp add: min_def)
  moreover have "''IDAT'' \<notin> chunkType ` set cs \<longrightarrow> ?k = min 46 (length ?buf)"
    using none by auto
  ultimately show ?thesis
    using res unfolding tk dk
    by (intro exI [of _ "\<lparr>blobBytes = take ?k ?buf @ pHYsBytes dpr @ drop ?k ?buf,
                   blobOptions = options\<rparr>"] exI [of _ h'] exI [of _ ?k]) auto
qed

lemma physPng_eq: "physPng = pngBytes [ihdrChunk, physChunk, idatChunk] []"
  by code_simp

lemma plainPng_eq: "plainPng = pngBytes [ihdrChunk, idatChunk] []"
  by code_simp

lemma minimalPng_eq: "minimalPng = pngBytes [ihdrChunk] []"
  by code_simp

lemma wf_examples:
  "wfChunk ihdrChunk" "wfChunk physChunk" "wfChunk idatChunk" "wfChunk idatFirst"
  "wfChunk idatSecond" "wfChunk textChunk"
  by (simp_all add: wfChunk_def ihdrChunk_def physChunk_def idatChunk_def idatFirst_def
      idatSecond_def textChunk_def)

lemma type_examples:
  "chunkType ihdrChunk = ''IHDR''" "chunkType physChunk = ''pHYs''"
  "chunkType idatChunk = ''IDAT''" "chunkType idatFirst = ''IDAT''"
  "chunkType idatSecond = ''IDAT''" "chunkType textChunk = ''tEXt''"
  by (simp_all add: ihdrChunk_def physChunk_def idatChunk_def idatFirst_def
      idatSecond_def textChunk_def)

text \<open>
  The theorem on \<open>plainPng\<close>, whose \<open>IDAT\<close> chunk starts at offset 33, and on
  \<open>minimalPng\<close>, which has no \<open>IDAT\<close> chunk and 45 bytes.
\<close>

theorem setPhysChunk_inserts_21_bytes_witness:
  "(\<exists>blob h'. setPhysChunk [plainPng] 0 1 None = Some (Inr blob, h')
       \<and> blobBytes blob = take 33 plainPng @ pHYsBytes 1 @ drop 33 plainPng
       \<and> length (blobBytes blob) = 88)
   \<and> (\<exists>blob h'. setPhysChunk [minimalPng] 0 1 None = Some (Inr blob, h')
       \<and> blobBytes blob = minimalPng @ pHYsBytes 1
       \<and> length (blobBytes blob) = 66)"
proof
  have wf: "list_all wfChunk [ihdrChunk, idatChunk]"
    by (simp add: wf_examples)
  have np: "''pHYs'' \<notin> chunkType ` set [ihdrChunk, idatChunk]"
    by (simp add: type_examples)
  have v: "0 < length [plainPng]" "[plainPng] ! 0 = pngBytes [ihdrChunk, idatChunk] []"
    by (simp_all add: plainPng_eq)
  have len: "length plainPng = 67"
    by (simp add: plainPng_def)
  from setPhysChunk_inserts_21_bytes [OF wf np v, of 1 None]
  obtain blob h' k where r: "setPhysChunk [plainPng] 0 1 None = Some (Inr blob, h')"
    "blobBytes blob = take k ([plainPng] ! 0) @ pHYsBytes 1 @ drop k ([plainPng] ! 0)"
    "length (blobBytes blob) = length ([plainPng] ! 0) + 21"
    "\<forall>a c b. [ihdrChunk, idatChunk] = a @ c # b \<and> chunkType c = ''IDAT'' \<and>
         ''IDAT'' \<notin> chunkType ` set a \<longrightarrow> int k = chunkStart a"
    by (elim exE conjE) (rule that, assumption+)
  note r4 = r(4) [rule_format, of "[ihdrChunk]" idatChunk "[]"]
  have "int k = chunkStart [ihdrChunk]"
    using r4 by (simp add: type_examples)
  then have "k = 33"
    by (simp add: chunkStart_def encodeChunk_def ihdrChunk_def)
  with r len show "\<exists>blob h'. setPhysChunk [plainPng] 0 1 None = Some (Inr blob, h')
       \<and> blobBytes blob = take 33 plainPng @ pHYsBytes 1 @ drop 33 plainPng
       \<and> length (blobBytes blob) = 88"
    by simp
next
  have wf: "list_all wfChunk [ihdrChunk]"
    by (simp add: wf_examples)
  have np: "''pHYs'' \<notin> chunkType ` set [ihdrChunk]"
    by (simp add: type_examples)
  have v: "0 < length [minimalPng]" "[minimalPng] ! 0 = pngBytes [ihdrChunk] []"
    by (simp_all add: minimalPng_eq)
  have len: "length minimalPng = 45"
    by (simp add: minimalPng_def)
  from setPhysChunk_inserts_21_bytes [OF wf np v, of 1 None]
  obtain blob h' k where r: "setPhysChunk [minimalPng] 0 1 None = Some (Inr blob, h')"
    "blobBytes blob = take k ([minimalPng] ! 0) @ pHYsBytes 1 @ drop k ([minimalPng] ! 0)"
    "length (blobBytes blob) = length ([minimalPng] ! 0) + 21"
    "''IDAT'' \<notin> chunkType ` set [ihdrChunk] \<longrightarrow> k = min 46 (length ([minimalPng] ! 0))"
    by (elim exE conjE) (rule that, assumption+)
  from r(4) have "k = 45"
    by (simp add: type_examples len)
  with r len show "\<exists>blob h'. setPhysChunk [minimalPng] 0 1 None = Some (Inr blob, h')
       \<and> blobBytes blob = minimalPng @ pHYsBytes 1
       \<and> length (blobBytes blob) = 66"
    by simp
qed

text \<open>
  C6 as stated fails on the stream made of the signature, \<open>IHDR\<close> and \<open>IEND\<close>: it has
  45 bytes, and the new chunk is appended at offset 45, not written at offset 46.
\<close>

theorem setPhysChunk_fallback_counterexample:
  "map_option fst (setPhysChunk [minimalPng] 0 1 None)
     = Some (Inr \<lparr>blobBytes = minimalPng @ pHYsBytes 1, blobOptions = None\<rparr>)
   \<and> length minimalPng = 45
   \<and> take 21 (drop 46 (minimalPng @ pHYsBytes 1)) \<noteq> pHYsBytes 1"
  by code_simp

subsection \<open>Duplicate \<open>IDAT\<close> chunks\<close>

text \<open>
  C5. On a well-formed stream whose first \<open>IDAT\<close> chunk is \<open>c\<close>, after the chunks
  \<open>a\<close> and before the chunks \<open>b\<close> (which may hold further \<open>IDAT\<close> chunks),
  \<open>readChunks\<close> returns a table and does not throw; the entry for \<open>IDAT\<close> has the
  offsets and the size of \<open>c\<close>; and every chunk of another type that is the last of its
  type has an entry with its own offsets and size, also when it comes after a skipped
  \<open>IDAT\<close> chunk, so the scan crosses each chunk by exactly its encoded length.
\<close>

theorem readChunks_keeps_first_IDAT:
  assumes "list_all wfChunk cs"
    and "cs = a @ c # b" and "chunkType c = ''IDAT''" and "''IDAT'' \<notin> chunkType ` set a"
  shows "\<exists>tbl. readChunks (pngBytes cs trailer) 0 = Some (Inr tbl)
           \<and> tbl ''IDAT'' = Some \<lparr>dataOffset = chunkStart a + 8,
                                   size' = int (length (chunkData c)), start = chunkStart a\<rparr>
           \<and> (\<forall>a' c' b'. cs = a' @ c' # b' \<and> chunkType c' \<noteq> ''IDAT''
                    \<and> chunkType c' \<notin> chunkType ` set b'
                  \<longrightarrow> tbl (chunkType c')
                      = Some \<lparr>dataOffset = chunkStart a' + 8,
                              size' = int (length (chunkData c')), start = chunkStart a'\<rparr>)"
proof (intro exI conjI allI impI)
  show "readChunks (pngBytes cs trailer) 0 = Some (Inr (tableOf 8 cs Map.empty))"
    using assms(1) by (rule readChunks_wf)
  show "tableOf 8 cs Map.empty ''IDAT''
        = Some \<lparr>dataOffset = chunkStart a + 8, size' = int (length (chunkData c)),
                start = chunkStart a\<rparr>"
    unfolding assms(2) chunkStart_def using assms(3,4) by (simp add: tableOf_first_IDAT)
next
  fix a' c' b'
  assume "cs = a' @ c' # b' \<and> chunkType c' \<noteq> ''IDAT'' \<and> chunkType c' \<notin> chunkType ` set b'"
  then show "tableOf 8 cs Map.empty (chunkType c')
             = Some \<lparr>dataOffset = chunkStart a' + 8, size' = int (length (chunkData c')),
                     start = chunkStart a'\<rparr>"
    unfolding chunkStart_def by (simp add: tableOf_last_other)
qed

text \<open>
  The theorem on a stream with two \<open>IDAT\<close> chunks followed by a \<open>tEXt\<close> chunk.
\<close>

theorem readChunks_keeps_first_IDAT_witness:
  "list_all wfChunk [ihdrChunk, idatFirst, idatSecond, textChunk]
   \<and> (\<exists>tbl. readChunks (pngBytes [ihdrChunk, idatFirst, idatSecond, textChunk] []) 0
               = Some (Inr tbl)
          \<and> tbl ''IDAT'' = Some \<lparr>dataOffset = 41, size' = 5, start = 33\<rparr>
          \<and> tbl ''tEXt'' = Some \<lparr>dataOffset = 75, size' = 3, start = 67\<rparr>)"
proof -
  let ?cs = "[ihdrChunk, idatFirst, idatSecond, textChunk]"
  have wf: "list_all wfChunk ?cs"
    by (simp add: wf_examples)
  have sp: "?cs = [ihdrChunk] @ idatFirst # [idatSecond, textChunk]"
    by simp
  have ty: "chunkType idatFirst = ''IDAT''" "''IDAT'' \<notin> chunkType ` set [ihdrChunk]"
    by (simp_all add: type_examples)
  from readChunks_keeps_first_IDAT [OF wf sp ty, of "[]"]
  obtain tbl where r: "readChunks (pngBytes ?cs []) 0 = Some (Inr tbl)"
    "tbl ''IDAT'' = Some \<lparr>dataOffset = chunkStart [ihdrChunk] + 8,
        size' = int (length (chunkData idatFirst)), start = chunkStart [ihdrChunk]\<rparr>"
    "\<forall>a' c' b'. ?cs = a' @ c' # b' \<and> chunkType c' \<noteq> ''IDAT''
         \<and> chunkType c' \<notin> chunkType ` set b'
       \<longrightarrow> tbl (chunkType c')
           = Some \<lparr>dataOffset = chunkStart a' + 8,
                   size' = int (length (chunkData c')), start = chunkStart a'\<rparr>"
    by (elim exE conjE) (rule that, assumption+)
  note r3 = r(3) [rule_format, of "[ihdrChunk, idatFirst, idatSecond]" textChunk "[]"]
  have t: "tbl ''tEXt'' = Some \<lparr>dataOffset = chunkStart [ihdrChunk, idatFirst, idatSecond] + 8,
                   size' = int (length (chunkData textChunk)),
                   start = chunkStart [ihdrChunk, idatFirst, idatSecond]\<rparr>"
    using r3 by (simp add: type_examples)
  have s1: "chunkStart [ihdrChunk] = 33" "chunkStart [ihdrChunk, idatFirst, idatSecond] = 67"
    "length (chunkData idatFirst) = 5" "length (chunkData textChunk) = 3"
    by (simp_all add: chunkStart_def encodeChunk_def ihdrChunk_def idatFirst_def idatSecond_def
        textChunk_def)
  show ?thesis
    using wf r(1,2) t unfolding s1 by simp
qed

subsection \<open>\<open>findChunk\<close>: throwing and absence\<close>



subsection \<open>\<open>parsePhys\<close>\<close>

lemma parsePhys_in_bounds:
  assumes "0 \<le> offset" and "offset + 8 \<le> int (length view)"
  shows "parsePhys view offset
         = Inr \<lparr>ppux = uint (be32 view (nat offset)), ppuy = uint (be32 view (nat (offset + 4))),
                unit = uint (view ! nat (offset + 4))\<rparr>"
  using assms
  by (simp add: parsePhys_def getUint32_def getUint8_def inBounds_def bindE_def rethrow_def)

text \<open>
  C4 (the code departs from it). The payload of the \<open>pHYs\<close> chunk of \<open>physPng\<close>
  starts at offset 41 and its ninth byte, at offset 49, is the unit specifier 1.
  \<open>parsePhys\<close> returns the unit 0: it reads the byte at \<open>offset + 4\<close>, the first byte
  of the pixels-per-unit-Y field, not the byte at \<open>offset + 8\<close>.
\<close>

theorem parsePhys_unit_from_offset_4:
  "parsePhys physPng 41 = Inr \<lparr>ppux = 2835, ppuy = 2835, unit = 0\<rparr>
   \<and> getUint8 physPng (41 + 8) = Inr 1"
  by code_simp

subsection \<open>\<open>calculateCRC\<close>\<close>

text \<open>
  C2 (the code departs from it). With the default \<open>previous = 0\<close> the accumulator
  starts at 0, not at all ones, so the result is not the checksum of the PNG format:
  on the ASCII digits \<open>123456789\<close> the code returns \<open>0xD202D277\<close> where the checksum
  is the well-known check value \<open>0xCBF43926\<close>, and on the type and data of the
  \<open>pHYs\<close> chunk of \<open>physPng\<close> it returns \<open>0xF0112565\<close> where the checksum stored in
  that file is \<open>0x009A9C18\<close>.
\<close>

theorem calculateCRC_not_canonical:
  "word_of_int (calculateCRC (map of_char ''123456789'') 0) = (0xD202D277 :: 32 word)
   \<and> referenceCRC32 (map of_char ''123456789'') = 0xCBF43926
   \<and> word_of_int (calculateCRC (map of_char ''pHYs'' @ chunkData physChunk) 0) = (0xF0112565 :: 32 word)
   \<and> referenceCRC32 (map of_char ''pHYs'' @ chunkData physChunk) = 0x009A9C18"
  by code_simp

subsection \<open>A scan that never ends\<close>

lemma badLength_header:
  "getInt32 badLength 8 = Inr (- 12)"
  "getChunkType badLength 12 = Inr ''abcd''"
  "isPng badLength 0"
  "length badLength = 16"
  by code_simp+

lemma readChunks_loop_badLength:
  assumes "readChunks_loop view offset chunks = Some y"
  shows "\<not> (view = badLength \<and> offset = 8)"
proof (rule readChunks_loop.raw_induct
    [where P = "\<lambda>view offset chunks y. \<not> (view = badLength \<and> offset = 8)", OF _ assms],
    goal_cases)
  case (1 f view offset chunks y)
  show ?case
  proof
    assume "view = badLength \<and> offset = 8"
    with 1(2) have "f badLength 8
        (chunks(''abcd'' \<mapsto> \<lparr>dataOffset = 8 + LENGTH_SIZE + 4, size' = - 12, start = 8\<rparr>)) = Some y"
      by (simp add: badLength_header LENGTH_SIZE_def CRC_SIZE_def)
    from 1(1) [OF this] show False
      by simp
  qed
qed

text \<open>
  C7 (the code departs from it). The length field is read as a signed integer. In
  \<open>badLength\<close> it is \<open>-12\<close>, so after the chunk the offset is \<open>8 + 4 + (-12 + 4 + 4) = 8\<close>
  again: the loop reads the same chunk for ever, and \<open>readChunks\<close> neither returns
  nor throws.
\<close>

theorem readChunks_never_returns:
  "readChunks badLength 0 = None"
proof -
  have "readChunks_loop badLength 8 Map.empty = None"
    using readChunks_loop_badLength [of badLength 8 Map.empty]
    by (cases "readChunks_loop badLength 8 Map.empty") auto
  then show ?thesis
    by (simp add: readChunks_def badLength_header SIGNATURE_def)
qed

subsection \<open>\<open>setPhysChunk\<close> on a stream that has a \<open>pHYs\<close> chunk\<close>

lemma insertionRange_physPng: "insertionRange physPng = Some (Inr (54, 0))"
  by code_simp

text \<open>
  C1 (the code departs from it). \<open>physPng\<close> has a \<open>pHYs\<close> chunk at offsets 33 to 53
  and its \<open>IDAT\<close> chunk at offset 54. The lookup of \<open>IDAT\<close> overrides the range found
  for \<open>pHYs\<close>: the blob is the whole input, old \<open>pHYs\<close> chunk included, with the new
  chunk inserted at offset 54, and it is 21 bytes longer than the input.
\<close>

theorem setPhysChunk_keeps_old_pHYs:
  "map_option fst (setPhysChunk [physPng] 0 2 None)
     = Some (Inr \<lparr>blobBytes = take 54 physPng @ pHYsBytes 2 @ drop 54 physPng,
                  blobOptions = None\<rparr>)
   \<and> take 21 (drop 33 physPng) = encodeChunk physChunk
   \<and> length (take 54 physPng @ pHYsBytes 2 @ drop 54 physPng) = length physPng + 21"
proof -
  have "setPhysChunk [physPng] 0 2 None
        = Some (Inr (newBlob [slice physPng 0 (Some 54), pHYsBytes 2, slice physPng (54 + 0) None] None),
                [physPng] @ [pHYsBytes 2, take 13 (drop 4 (pHYsBytes 2)),
                      slice physPng 0 (Some 54), slice physPng (54 + 0) None])"
    using setPhysChunk_eq [of 0 "[physPng]" 54 0 2 None] insertionRange_physPng by simp
  moreover have "take 21 (drop 33 physPng) = encodeChunk physChunk"
    by code_simp
  moreover have "length physPng = 88"
    by (simp add: physPng_def)
  ultimately show ?thesis
    by (simp add: newBlob_def slice_prefix slice_suffix)
qed

subsection \<open>Reading back the new chunk\<close>








subsection \<open>The input buffer is not written\<close>

text \<open>
  C9. Whenever \<open>setPhysChunk\<close> returns or throws, every buffer that existed before the
  call, the input among them, has the bytes it had: the heap after the call is the heap
  before it followed by new buffers. When it returns, there are four new buffers and
  the blob is made of three of them.
\<close>

theorem setPhysChunk_frame:
  assumes "view < length h" and "setPhysChunk h view dpr options = Some (r, h')"
  shows "take (length h) h' = h \<and> h' ! view = h ! view
         \<and> (\<forall>blob. r = Inr blob \<longrightarrow>
               length h' = length h + 4
               \<and> blobBytes blob = h' ! (length h + 2) @ h' ! length h @ h' ! (length h + 3))"
proof (cases "insertionRange (h ! view)")
  case None
  then show ?thesis
    using assms(2) by (simp add: setPhysChunk_diverge)
next
  case (Some res)
  show ?thesis
  proof (cases res)
    case (Inl e)
    then show ?thesis
      using assms(2) Some by (auto simp add: setPhysChunk_throw)
  next
    case (Inr range)
    obtain off sz where "range = (off, sz)"
      by (cases range)
    then have "insertionRange (h ! view) = Some (Inr (off, sz))"
      using Some Inr by simp
    from setPhysChunk_eq [OF assms(1) this, of dpr options] assms
    show ?thesis
      by (auto simp add: newBlob_def nth_append)
  qed
qed

subsection \<open>The properties on \<open>plainPng\<close>\<close>

lemma insertionRange_plainPng: "insertionRange plainPng = Some (Inr (33, 0))"
  by code_simp

lemma setPhysChunk_plainPng:
  "setPhysChunk [plainPng] 0 dpr None
   = Some (Inr \<lparr>blobBytes = take 33 plainPng @ pHYsBytes dpr @ drop 33 plainPng,
                blobOptions = None\<rparr>,
           [plainPng, pHYsBytes dpr, take 13 (drop 4 (pHYsBytes dpr)), take 33 plainPng,
            drop 33 plainPng])"
  using setPhysChunk_eq [of 0 "[plainPng]" 33 0 dpr None] insertionRange_plainPng
  by (simp add: newBlob_def slice_prefix slice_suffix)



text \<open>
  The frame property on the heap that holds \<open>plainPng\<close> alone: after the call the heap
  has five buffers and the first is still \<open>plainPng\<close>.
\<close>

theorem setPhysChunk_frame_witness:
  "setPhysChunk [plainPng] 0 1 None
     = Some (Inr \<lparr>blobBytes = take 33 plainPng @ pHYsBytes 1 @ drop 33 plainPng,
                  blobOptions = None\<rparr>,
             [plainPng, pHYsBytes 1, take 13 (drop 4 (pHYsBytes 1)), take 33 plainPng,
              drop 33 plainPng])
   \<and> take (length [plainPng])
        [plainPng, pHYsBytes 1, take 13 (drop 4 (pHYsBytes 1)), take 33 plainPng,
         drop 33 plainPng] = [plainPng]
   \<and> [plainPng, pHYsBytes 1, take 13 (drop 4 (pHYsBytes 1)), take 33 plainPng,
       drop 33 plainPng] ! 0 = [plainPng] ! 0"
proof -
  have v: "0 < length [plainPng]"
    by simp
  show ?thesis
    using setPhysChunk_frame [OF v setPhysChunk_plainPng [of 1]] setPhysChunk_plainPng [of 1]
    by simp
qed

end
